theory Spec2Isabelle
  imports Complex_Main "HOL-Library.Sublist"
begin

section \<open>The resilience layer of \<open>planb/aws.py\<close>\<close>

text \<open>
  The module puts two transparent proxies in front of a boto3 client: a
  \<open>SessionRefreshingBotoClient\<close> that re-creates the session once when a call fails with
  the code \<open>RequestExpired\<close>, and a \<open>RequestThrottlingBotoClient\<close> that retries a throttled
  call with exponential backoff. \<open>boto_client\<close> composes them.

  Python values that the module only forwards stay abstract: \<open>'a\<close> is the argument pack
  \<open>(*args, **kwargs)\<close>, \<open>'v\<close> a returned value, \<open>'w\<close> the state of everything beyond the
  process (the remote service, the credential store).
\<close>

subsection \<open>Exceptions\<close>

text \<open>
  Of a \<open>botocore.exceptions.ClientError\<close> \<open>e\<close> the module reads two things only:
  \<open>e.response['Error']['Code']\<close> (the field \<open>Code\<close>) and \<open>str(e)\<close>, the text of the
  failure (the field \<open>Str\<close>).
\<close>

record ClientError =
  Code :: string
  Str :: string

datatype exn =
    Client ClientError
  | NameError string
  | AttributeError string
  | TypeError string
  | Other string

subsection \<open>Effects\<close>

datatype level = DEBUG | INFO

text \<open>
  What a call does beyond returning is kept in a trace, oldest event first: the records
  handed to \<open>logger\<close>, the durations handed to \<open>time.sleep\<close>, every creation of a boto3
  session client and every request forwarded to a boto3 client method.
\<close>

datatype event =
    Log level string
  | Sleep rat
  | NewClient
  | Request string

record 'w sys =
  remote :: 'w
  trace :: "event list"

definition logger :: "level \<Rightarrow> string \<Rightarrow> 'w sys \<Rightarrow> 'w sys" where
  "logger l msg s = s\<lparr>trace := trace s @ [Log l msg]\<rparr>"

definition emit :: "event \<Rightarrow> 'w sys \<Rightarrow> 'w sys" where
  "emit ev s = s\<lparr>trace := trace s @ [ev]\<rparr>"

subsection \<open>Objects as attribute tables\<close>

text \<open>
  \<open>getattr(obj, name)\<close> yields a callable or a plain value. A callable runs on a state
  \<open>'s\<close> and returns or raises. A boto3 client is the table of its attributes; its
  methods act on the remote state only.
\<close>

datatype ('a, 'v, 's) attribute =
    Method "'a \<Rightarrow> 's \<Rightarrow> (exn + 'v) \<times> 's"
  | Value 'v

type_synonym ('a, 'v, 'w) client = "string \<Rightarrow> ('a, 'v, 'w) attribute option"

text \<open>
  \<open>boto3.session.Session(profile_name=p).client(service, region)\<close>: given by the
  environment; it may raise (an unknown profile, for instance).
\<close>

type_synonym ('a, 'v, 'w) boto3 =
  "string option \<Rightarrow> string \<Rightarrow> string option \<Rightarrow> 'w \<Rightarrow> (exn + ('a, 'v, 'w) client) \<times> 'w"

subsection \<open>Strings\<close>

fun startswith :: "string \<Rightarrow> string \<Rightarrow> bool" where
  "startswith s [] = True"
| "startswith [] (p # ps) = False"
| "startswith (c # cs) (p # ps) = (c = p \<and> startswith cs ps)"

text \<open>Python's \<open>sub in s\<close> on strings.\<close>

fun str_contains :: "string \<Rightarrow> string \<Rightarrow> bool" where
  "str_contains sub [] = (sub = [])"
| "str_contains sub (c # cs) = (startswith (c # cs) sub \<or> str_contains sub cs)"

fun digit :: "nat \<Rightarrow> char" where
  "digit n = (if n = 0 then CHR ''0'' else if n = 1 then CHR ''1'' else if n = 2 then CHR ''2''
    else if n = 3 then CHR ''3'' else if n = 4 then CHR ''4'' else if n = 5 then CHR ''5''
    else if n = 6 then CHR ''6'' else if n = 7 then CHR ''7'' else if n = 8 then CHR ''8''
    else CHR ''9'')"

fun str_nat :: "nat \<Rightarrow> string" where
  "str_nat n = (if n < 10 then [digit n] else str_nat (n div 10) @ [digit (n mod 10)])"

text \<open>
  \<open>'{}'.format(round(x, 1))\<close> for a non-negative \<open>x\<close>: the nearest tenth, printed with
  one decimal. The durations formatted here are multiples of one half below \<open>10\<^sup>1\<^sup>6\<close>, for
  which no tie arises and Python prints exactly these digits.
\<close>

definition format_round1 :: "rat \<Rightarrow> string" where
  "format_round1 x =
     (let tenths = nat \<lfloor>x * 10 + 1 / 2\<rfloor>
      in str_nat (tenths div 10) @ ''.'' @ str_nat (tenths mod 10))"

subsection \<open>SessionRefreshingBotoClient\<close>

record ('a, 'v, 'w) SessionRefreshingBotoClient =
  profile_name :: "string option"
  service_name :: string
  region_name :: "string option"
  client :: "('a, 'v, 'w) client"

text \<open>\<open>_refresh_session\<close>: a new session, a new client, stored in \<open>self._client\<close>.\<close>

definition refresh_session ::
  "('a, 'v, 'w) boto3 \<Rightarrow> ('a, 'v, 'w) SessionRefreshingBotoClient \<times> 'w sys \<Rightarrow>
   (exn + unit) \<times> ('a, 'v, 'w) SessionRefreshingBotoClient \<times> 'w sys" where
  "refresh_session boto = (\<lambda>(self, s).
     let s1 = emit NewClient s in
     (case boto (profile_name self) (service_name self) (region_name self) (remote s1) of
        (Inl x, w) \<Rightarrow> (Inl x, self, s1\<lparr>remote := w\<rparr>)
      | (Inr c, w) \<Rightarrow> (Inr (), self\<lparr>client := c\<rparr>, s1\<lparr>remote := w\<rparr>)))"

text \<open>
  The closure \<open>wrapper\<close> returned by \<open>_wrap_callable(name)\<close>. The \<open>while True\<close> loop is the
  recursion; \<open>retried\<close> is its local flag, \<open>False\<close> on entry.
\<close>

function SessionRefreshingBotoClient_wrapper ::
  "('a, 'v, 'w) boto3 \<Rightarrow> string \<Rightarrow> 'a \<Rightarrow> bool \<Rightarrow>
   ('a, 'v, 'w) SessionRefreshingBotoClient \<times> 'w sys \<Rightarrow>
   (exn + 'v) \<times> ('a, 'v, 'w) SessionRefreshingBotoClient \<times> 'w sys" where
  "SessionRefreshingBotoClient_wrapper boto name args retried (self, s) =
     (let s1 = logger DEBUG (''SessionRefreshingBotoClient: '' @ name) s in
      case client self name of
        None \<Rightarrow> (Inl (AttributeError name), self, s1)
      | Some (Value v) \<Rightarrow> (Inl (TypeError name), self, s1)
      | Some (Method attr) \<Rightarrow>
          let s2 = emit (Request name) s1 in
          (case attr args (remote s2) of
             (Inr r, w) \<Rightarrow> (Inr r, self, s2\<lparr>remote := w\<rparr>)
           | (Inl (Client e), w) \<Rightarrow>
               let s3 = s2\<lparr>remote := w\<rparr> in
               if Code e = ''RequestExpired'' then
                 if \<not> retried then
                   (case refresh_session boto
                           (self, logger INFO ''Refreshing boto client session...'' s3) of
                      (Inl x, st) \<Rightarrow> (Inl x, st)
                    | (Inr u, st) \<Rightarrow> SessionRefreshingBotoClient_wrapper boto name args True st)
                 else (Inl (Client e), self, s3)
               else (Inl (Client e), self, s3)
           | (Inl x, w) \<Rightarrow> (Inl x, self, s2\<lparr>remote := w\<rparr>)))"
  by pat_completeness auto
termination
  by (relation "measure (\<lambda>(boto, name, args, retried, st). if retried then 0 else 1)") auto

definition SessionRefreshingBotoClient_wrap_callable ::
  "('a, 'v, 'w) boto3 \<Rightarrow> string \<Rightarrow> 'a \<Rightarrow>
   ('a, 'v, 'w) SessionRefreshingBotoClient \<times> 'w sys \<Rightarrow>
   (exn + 'v) \<times> ('a, 'v, 'w) SessionRefreshingBotoClient \<times> 'w sys" where
  "SessionRefreshingBotoClient_wrap_callable boto name args st =
     SessionRefreshingBotoClient_wrapper boto name args False st"

text \<open>
  \<open>__getattr__\<close>. Python calls it for the names that ordinary lookup does not find on the
  proxy object, which is every name of a remote operation.
\<close>

definition SessionRefreshingBotoClient_getattr ::
  "('a, 'v, 'w) boto3 \<Rightarrow> ('a, 'v, 'w) SessionRefreshingBotoClient \<Rightarrow> string \<Rightarrow>
   exn + ('a, 'v, ('a, 'v, 'w) SessionRefreshingBotoClient \<times> 'w sys) attribute" where
  "SessionRefreshingBotoClient_getattr boto self name =
     (case client self name of
        None \<Rightarrow> Inl (AttributeError name)
      | Some (Method attr) \<Rightarrow> Inr (Method (SessionRefreshingBotoClient_wrap_callable boto name))
      | Some (Value v) \<Rightarrow> Inr (Value v))"

text \<open>
  \<open>__init__\<close>: the three fields, then the first session. Until that session exists the
  object has no \<open>_client\<close>; the empty table stands for that and is never read, since an
  object whose first session fails is not returned.
\<close>

definition SessionRefreshingBotoClient_init ::
  "('a, 'v, 'w) boto3 \<Rightarrow> string option \<Rightarrow> string \<Rightarrow> string option \<Rightarrow> 'w sys \<Rightarrow>
   (exn + ('a, 'v, 'w) SessionRefreshingBotoClient) \<times> 'w sys" where
  "SessionRefreshingBotoClient_init boto profile service region s =
     (case refresh_session boto
             (\<lparr>profile_name = profile, service_name = service, region_name = region,
               client = (\<lambda>name. None)\<rparr>, s) of
        (Inl x, self, s') \<Rightarrow> (Inl x, s')
      | (Inr u, self, s') \<Rightarrow> (Inr self, s'))"

subsection \<open>The backoff policy\<close>

definition MAX_RETRIES :: nat where
  "MAX_RETRIES = 10"

definition RETRY_SLEEP :: rat where
  "RETRY_SLEEP = 1 / 2"

text \<open>
  \<open>2 ** retries * RETRY_SLEEP\<close>. The floating-point product of a power of two and one
  half is exact, so the rational is the value Python computes.
\<close>

definition get_retry_sleep_duration :: "nat \<Rightarrow> rat" where
  "get_retry_sleep_duration retries = 2 ^ retries * RETRY_SLEEP"

subsection \<open>The module namespace\<close>

text \<open>
  The names bound at module level, in the order the file binds them: four imports,
  \<open>logger\<close>, and the classes, constants and functions it defines. The file calls
  \<open>time.sleep\<close> at two places (in the throttling loop and in \<open>create_instance_profile\<close>)
  and binds the name \<open>time\<close> nowhere; nor is it one of Python's builtins.
\<close>

definition aws_globals :: "string list" where
  "aws_globals =
     [''logging'', ''botocore'', ''ClientError'', ''boto3'', ''logger'',
      ''SessionRefreshingBotoClient'', ''MAX_RETRIES'', ''RETRY_SLEEP'',
      ''get_retry_sleep_duration'', ''RequestThrottlingBotoClient'', ''boto_client'',
      ''list_instances'', ''list_cluster_instances'', ''fetch_user_data'',
      ''setup_sns_topics_for_alarm'', ''create_auto_recovery_alarm'',
      ''get_instance_profile'', ''make_instance_profile_name'',
      ''create_instance_profile'', ''ensure_instance_profile'']"

text \<open>
  \<open>time.sleep(d)\<close> evaluated in a namespace \<open>g\<close>: looking up the global \<open>time\<close> raises
  \<open>NameError\<close> when the namespace does not bind it; otherwise the call sleeps.
\<close>

definition time_sleep :: "string list \<Rightarrow> rat \<Rightarrow> 'w sys \<Rightarrow> (exn + unit) \<times> 'w sys" where
  "time_sleep g d s =
     (if ''time'' \<in> set g then (Inr (), emit (Sleep d) s)
      else (Inl (NameError ''time''), s))"

subsection \<open>RequestThrottlingBotoClient\<close>

datatype 'o RequestThrottlingBotoClient =
  RequestThrottlingBotoClient (wrapped: 'o)

text \<open>
  The \<open>while True\<close> loop of the closure \<open>wrapper\<close>; \<open>attr\<close> is the callable fetched from
  the wrapped client before the loop, \<open>count\<close> the local counter, \<open>g\<close> the namespace the
  body is evaluated in.
\<close>

function RequestThrottlingBotoClient_loop ::
  "string list \<Rightarrow> ('a \<Rightarrow> 'o \<times> 'w sys \<Rightarrow> (exn + 'v) \<times> 'o \<times> 'w sys) \<Rightarrow> 'a \<Rightarrow> nat \<Rightarrow>
   'o \<times> 'w sys \<Rightarrow> (exn + 'v) \<times> 'o \<times> 'w sys" where
  "RequestThrottlingBotoClient_loop g attr args count st =
     (case attr args st of
        (Inr r, st') \<Rightarrow> (Inr r, st')
      | (Inl (Client e), c, s) \<Rightarrow>
          if Code e = ''Throttling'' \<or> str_contains ''RequestLimitExceeded'' (Str e) then
            if count < MAX_RETRIES then
              let sleep_time = get_retry_sleep_duration count;
                  msg = ''Throttling AWS API requests: '' @ format_round1 sleep_time @ ''s...''
              in (case time_sleep g sleep_time (logger INFO msg s) of
                    (Inl x, s') \<Rightarrow> (Inl x, c, s')
                  | (Inr u, s') \<Rightarrow>
                      RequestThrottlingBotoClient_loop g attr args (count + 1) (c, s'))
            else (Inl (Client e), c, s)
          else (Inl (Client e), c, s)
      | (Inl x, st') \<Rightarrow> (Inl x, st'))"
  by pat_completeness auto
termination
  by (relation "measure (\<lambda>(g, attr, args, count, st). MAX_RETRIES - count)") auto

text \<open>
  The closure \<open>wrapper\<close> returned by \<open>_wrap_callable(name)\<close>; \<open>ga\<close> is attribute access on the
  wrapped client, \<open>getattr(self._client, name)\<close>.
\<close>

definition RequestThrottlingBotoClient_wrap_callable ::
  "string list \<Rightarrow> ('o \<Rightarrow> string \<Rightarrow> exn + ('a, 'v, 'o \<times> 'w sys) attribute) \<Rightarrow> string \<Rightarrow> 'a \<Rightarrow>
   'o RequestThrottlingBotoClient \<times> 'w sys \<Rightarrow>
   (exn + 'v) \<times> 'o RequestThrottlingBotoClient \<times> 'w sys" where
  "RequestThrottlingBotoClient_wrap_callable g ga name args = (\<lambda>(self, s).
     let s1 = logger DEBUG (''RequestThrottlingBotoClient: '' @ name) s in
     case ga (wrapped self) name of
       Inl x \<Rightarrow> (Inl x, self, s1)
     | Inr (Value v) \<Rightarrow> (Inl (TypeError name), self, s1)
     | Inr (Method attr) \<Rightarrow>
         (case RequestThrottlingBotoClient_loop g attr args 0 (wrapped self, s1) of
            (res, c, s') \<Rightarrow> (res, RequestThrottlingBotoClient c, s')))"

definition RequestThrottlingBotoClient_getattr ::
  "string list \<Rightarrow> ('o \<Rightarrow> string \<Rightarrow> exn + ('a, 'v, 'o \<times> 'w sys) attribute) \<Rightarrow>
   'o RequestThrottlingBotoClient \<Rightarrow> string \<Rightarrow>
   exn + ('a, 'v, 'o RequestThrottlingBotoClient \<times> 'w sys) attribute" where
  "RequestThrottlingBotoClient_getattr g ga self name =
     (case ga (wrapped self) name of
        Inl x \<Rightarrow> Inl x
      | Inr (Method attr) \<Rightarrow> Inr (Method (RequestThrottlingBotoClient_wrap_callable g ga name))
      | Inr (Value v) \<Rightarrow> Inr (Value v))"

subsection \<open>The factory and the composed handle\<close>

definition boto_client ::
  "('a, 'v, 'w) boto3 \<Rightarrow> string \<Rightarrow> string option \<Rightarrow> string option \<Rightarrow> 'w sys \<Rightarrow>
   (exn + ('a, 'v, 'w) SessionRefreshingBotoClient RequestThrottlingBotoClient) \<times> 'w sys" where
  "boto_client boto service region profile s =
     (case SessionRefreshingBotoClient_init boto profile service region s of
        (Inl x, s') \<Rightarrow> (Inl x, s')
      | (Inr inner, s') \<Rightarrow> (Inr (RequestThrottlingBotoClient inner), s'))"

text \<open>
  \<open>handle.name\<close> on a handle built by \<open>boto_client\<close>, and \<open>handle.name(*args, **kwargs)\<close>:
  the attribute is fetched, then called.
\<close>

definition handle_getattr ::
  "string list \<Rightarrow> ('a, 'v, 'w) boto3 \<Rightarrow>
   ('a, 'v, 'w) SessionRefreshingBotoClient RequestThrottlingBotoClient \<Rightarrow> string \<Rightarrow>
   exn + ('a, 'v,
     ('a, 'v, 'w) SessionRefreshingBotoClient RequestThrottlingBotoClient \<times> 'w sys) attribute" where
  "handle_getattr g boto =
     RequestThrottlingBotoClient_getattr g (SessionRefreshingBotoClient_getattr boto)"

definition invoke ::
  "string list \<Rightarrow> ('a, 'v, 'w) boto3 \<Rightarrow> string \<Rightarrow> 'a \<Rightarrow>
   ('a, 'v, 'w) SessionRefreshingBotoClient RequestThrottlingBotoClient \<times> 'w sys \<Rightarrow>
   (exn + 'v) \<times> ('a, 'v, 'w) SessionRefreshingBotoClient RequestThrottlingBotoClient \<times> 'w sys" where
  "invoke g boto name args = (\<lambda>(h, s).
     case handle_getattr g boto h name of
       Inl x \<Rightarrow> (Inl x, h, s)
     | Inr (Value v) \<Rightarrow> (Inl (TypeError name), h, s)
     | Inr (Method m) \<Rightarrow> m args (h, s))"

subsection \<open>Reading a trace\<close>

fun sleeps :: "event list \<Rightarrow> rat list" where
  "sleeps [] = []"
| "sleeps (Sleep d # tr) = d # sleeps tr"
| "sleeps (ev # tr) = sleeps tr"

definition refreshes :: "event list \<Rightarrow> nat" where
  "refreshes tr = length (filter (\<lambda>ev. ev = NewClient) tr)"

fun requests :: "event list \<Rightarrow> string list" where
  "requests [] = []"
| "requests (Request name # tr) = name # requests tr"
| "requests (ev # tr) = requests tr"

subsection \<open>The two kinds of failure, in the words of the specification\<close>

text \<open>
  The specification names two kinds of failure. Its expiry code is \<open>RequestExpired\<close>, its
  throttling code \<open>Throttling\<close>, its rate-limit marker \<open>RequestLimitExceeded\<close>, and the
  message it speaks of is the text \<open>str(e)\<close> of the failure. The proxies do not call these
  predicates; the theorems below compare what the proxies do with them.
\<close>

definition credentials_expired :: "ClientError \<Rightarrow> bool" where
  "credentials_expired e = (Code e = ''RequestExpired'')"

definition rate_limited :: "ClientError \<Rightarrow> bool" where
  "rate_limited e = (Code e = ''Throttling'' \<or> str_contains ''RequestLimitExceeded'' (Str e))"

subsection \<open>A scripted remote service\<close>

text \<open>
  For concrete runs: a remote service that answers the successive \<open>describe_instances\<close>
  requests with the outcomes of a script, and a boto3 whose every session yields a client
  of that service. The client also has a plain attribute \<open>meta\<close>.
\<close>

definition describe_instances ::
  "unit \<Rightarrow> (exn + string) list \<Rightarrow> (exn + string) \<times> (exn + string) list" where
  "describe_instances args w =
     (case w of [] \<Rightarrow> (Inl (Other ''end of script''), []) | out # rest \<Rightarrow> (out, rest))"

definition scripted_client :: "(unit, string, (exn + string) list) client" where
  "scripted_client name =
     (if name = ''describe_instances'' then Some (Method describe_instances)
      else if name = ''meta'' then Some (Value ''ClientMeta'')
      else None)"

definition scripted_boto3 :: "(unit, string, (exn + string) list) boto3" where
  "scripted_boto3 profile service region w = (Inr scripted_client, w)"

definition ec2 ::
  "(unit, string, (exn + string) list) SessionRefreshingBotoClient RequestThrottlingBotoClient" where
  "ec2 = RequestThrottlingBotoClient
           \<lparr>profile_name = None, service_name = ''ec2'', region_name = None,
            client = scripted_client\<rparr>"

definition throttled :: ClientError where
  "throttled = \<lparr>Code = ''Throttling'', Str = ''Rate exceeded''\<rparr>"

definition expired :: ClientError where
  "expired = \<lparr>Code = ''RequestExpired'', Str = ''Request has expired.''\<rparr>"


definition denied :: ClientError where
  "denied = \<lparr>Code = ''UnauthorizedOperation'', Str = ''You are not authorized.''\<rparr>"

subsection \<open>Successive forwards\<close>

text \<open>
  The remote state after \<open>i\<close> forwards of one call, and the events of one throttled round
  of the loop with the counter at \<open>count\<close>: the pass through the refresh layer, the notice,
  the sleep.
\<close>

fun after_forwards :: "('a \<Rightarrow> 'w \<Rightarrow> (exn + 'v) \<times> 'w) \<Rightarrow> 'a \<Rightarrow> nat \<Rightarrow> 'w \<Rightarrow> 'w" where
  "after_forwards f args 0 w = w"
| "after_forwards f args (Suc i) w = after_forwards f args i (snd (f args w))"

definition throttled_round :: "string \<Rightarrow> nat \<Rightarrow> event list" where
  "throttled_round name count =
     [Log DEBUG (''SessionRefreshingBotoClient: '' @ name), Request name,
      Log INFO (''Throttling AWS API requests: '' @
                format_round1 (get_retry_sleep_duration count) @ ''s...''),
      Sleep (get_retry_sleep_duration count)]"

section \<open>Basic facts\<close>

declare SessionRefreshingBotoClient_wrapper.simps [simp del]
declare RequestThrottlingBotoClient_loop.simps [simp del]

lemma sleeps_append [simp]: "sleeps (xs @ ys) = sleeps xs @ sleeps ys"
  by (induction xs rule: sleeps.induct) auto

lemma requests_append [simp]: "requests (xs @ ys) = requests xs @ requests ys"
  by (induction xs rule: requests.induct) auto

lemma refreshes_append [simp]: "refreshes (xs @ ys) = refreshes xs + refreshes ys"
  by (simp add: refreshes_def)

lemma refreshes_simps [simp]:
  "refreshes [] = 0" "refreshes (NewClient # tr) = Suc (refreshes tr)"
  "refreshes (Log l m # tr) = refreshes tr" "refreshes (Sleep d # tr) = refreshes tr"
  "refreshes (Request n # tr) = refreshes tr"
  by (simp_all add: refreshes_def)

lemma sys_reads [simp]:
  "trace (logger l m s) = trace s @ [Log l m]" "remote (logger l m s) = remote s"
  "trace (emit ev s) = trace s @ [ev]" "remote (emit ev s) = remote s"
  by (simp_all add: logger_def emit_def)

lemma startswith_prefix: "startswith s p \<longleftrightarrow> prefix p s"
  by (induction s p rule: startswith.induct) auto

lemma str_contains_sublist: "str_contains sub s \<longleftrightarrow> sublist sub s"
  by (induction s) (auto simp add: startswith_prefix sublist_Cons_right)

lemma time_unbound: "''time'' \<notin> set aws_globals"
  by (simp add: aws_globals_def)

lemma first_wait_text: "format_round1 (get_retry_sleep_duration 0) = ''0.5''"
  by code_simp

section \<open>One pass through the refresh layer\<close>

text \<open>The forward succeeds: its result is returned.\<close>

lemma sr_returns:
  assumes "client self name = Some (Method f)" and "f args (remote s) = (Inr r, w)"
  shows "SessionRefreshingBotoClient_wrapper boto name args retried (self, s) =
           (Inr r, self, s\<lparr>trace := trace s @
              [Log DEBUG (''SessionRefreshingBotoClient: '' @ name), Request name],
              remote := w\<rparr>)"
  using assms by (simp add: SessionRefreshingBotoClient_wrapper.simps logger_def emit_def)

text \<open>
  The forward raises, and either the session was refreshed already or the failure is no
  \<open>ClientError\<close> with the code \<open>RequestExpired\<close>: the failure is raised again.
\<close>

lemma sr_propagates:
  assumes "client self name = Some (Method f)" and "f args (remote s) = (Inl x, w)"
    and "retried \<or> (\<forall>e. x = Client e \<longrightarrow> Code e \<noteq> ''RequestExpired'')"
  shows "SessionRefreshingBotoClient_wrapper boto name args retried (self, s) =
           (Inl x, self, s\<lparr>trace := trace s @
              [Log DEBUG (''SessionRefreshingBotoClient: '' @ name), Request name],
              remote := w\<rparr>)"
  using assms
  by (cases x)
     (auto simp add: SessionRefreshingBotoClient_wrapper.simps logger_def emit_def Let_def)

text \<open>The first \<open>RequestExpired\<close>: a new client, and the loop goes round once more.\<close>

lemma sr_refreshes:
  assumes "client self name = Some (Method f)" and "f args (remote s) = (Inl (Client e), w1)"
    and "Code e = ''RequestExpired''"
    and "boto (profile_name self) (service_name self) (region_name self) w1 = (Inr c, w2)"
  shows "SessionRefreshingBotoClient_wrapper boto name args False (self, s) =
           SessionRefreshingBotoClient_wrapper boto name args True
             (self\<lparr>client := c\<rparr>, s\<lparr>trace := trace s @
                [Log DEBUG (''SessionRefreshingBotoClient: '' @ name), Request name,
                 Log INFO ''Refreshing boto client session...'', NewClient],
                remote := w2\<rparr>)"
  using assms
  by (simp add: SessionRefreshingBotoClient_wrapper.simps [of _ _ _ False] logger_def emit_def
      refresh_session_def)


text \<open>After the refresh, whatever the second forward does is the outcome.\<close>

lemma sr_refresh_then:
  assumes "client self name = Some (Method f)" and "f args (remote s) = (Inl (Client e), w1)"
    and "Code e = ''RequestExpired''"
    and "boto (profile_name self) (service_name self) (region_name self) w1 = (Inr c, w2)"
    and "c name = Some (Method f')" and "f' args w2 = (res, w3)"
  shows "SessionRefreshingBotoClient_wrapper boto name args False (self, s) =
           (res, self\<lparr>client := c\<rparr>, s\<lparr>trace := trace s @
               [Log DEBUG (''SessionRefreshingBotoClient: '' @ name), Request name,
                Log INFO ''Refreshing boto client session...'', NewClient,
                Log DEBUG (''SessionRefreshingBotoClient: '' @ name), Request name],
              remote := w3\<rparr>)"
proof -
  let ?s2 = "s\<lparr>trace := trace s @
               [Log DEBUG (''SessionRefreshingBotoClient: '' @ name), Request name,
                Log INFO ''Refreshing boto client session...'', NewClient], remote := w2\<rparr>"
  have first: "SessionRefreshingBotoClient_wrapper boto name args False (self, s) =
      SessionRefreshingBotoClient_wrapper boto name args True (self\<lparr>client := c\<rparr>, ?s2)"
    using assms(1-4) by (rule sr_refreshes [where f = f and e = e and ?w1.0 = w1])
  have cl: "client (self\<lparr>client := c\<rparr>) name = Some (Method f')"
    using assms(5) by simp
  have fw: "f' args (remote ?s2) = (res, w3)"
    using assms(6) by simp
  have second:
    "SessionRefreshingBotoClient_wrapper boto name args True (self\<lparr>client := c\<rparr>, ?s2) =
      (res, self\<lparr>client := c\<rparr>, ?s2\<lparr>trace := trace ?s2 @
         [Log DEBUG (''SessionRefreshingBotoClient: '' @ name), Request name], remote := w3\<rparr>)"
  proof (cases res)
    case (Inl x)
    have "True \<or> (\<forall>e. x = Client e \<longrightarrow> Code e \<noteq> ''RequestExpired'')" by simp
    with cl fw [unfolded Inl] show ?thesis
      unfolding Inl by (rule sr_propagates [where f = f'])
  next
    case (Inr r)
    from cl fw [unfolded Inr] show ?thesis
      unfolding Inr by (rule sr_returns [where f = f'])
  qed
  show ?thesis
    unfolding first second by simp
qed

text \<open>
  What one pass adds to the trace: it never sleeps, and it creates at most one new client
  (none once \<open>retried\<close> is set).
\<close>

lemma sr_trace_True:
  "\<exists>tr. trace (snd (snd (SessionRefreshingBotoClient_wrapper boto name args True (self, s)))) =
          trace s @ tr
      \<and> sleeps tr = [] \<and> refreshes tr = 0"
  by (simp add: SessionRefreshingBotoClient_wrapper.simps [of _ _ _ True] logger_def emit_def
      Let_def split: option.splits attribute.splits prod.splits sum.splits exn.splits)

lemma sr_trace:
  "\<exists>tr. trace (snd (snd (SessionRefreshingBotoClient_wrapper boto name args retried (self, s)))) =
          trace s @ tr
      \<and> sleeps tr = [] \<and> refreshes tr \<le> 1"
proof (cases retried)
  case True
  then show ?thesis using sr_trace_True [of boto name args self s] by auto
next
  case False
  then have r: "retried = False" by simp
  show ?thesis
  proof (cases "\<exists>f e w1 c w2. client self name = Some (Method f)
       \<and> f args (remote s) = (Inl (Client e), w1) \<and> Code e = ''RequestExpired''
       \<and> boto (profile_name self) (service_name self) (region_name self) w1 = (Inr c, w2)")
    case True
    then obtain f e w1 c w2 where a: "client self name = Some (Method f)"
      "f args (remote s) = (Inl (Client e), w1)" "Code e = ''RequestExpired''"
      "boto (profile_name self) (service_name self) (region_name self) w1 = (Inr c, w2)"
      by blast
    let ?s2 = "s\<lparr>trace := trace s @
               [Log DEBUG (''SessionRefreshingBotoClient: '' @ name), Request name,
                Log INFO ''Refreshing boto client session...'', NewClient], remote := w2\<rparr>"
    have first: "SessionRefreshingBotoClient_wrapper boto name args False (self, s) =
      SessionRefreshingBotoClient_wrapper boto name args True (self\<lparr>client := c\<rparr>, ?s2)"
      using a by (rule sr_refreshes [where f = f and e = e and ?w1.0 = w1])
    obtain tr where "trace (snd (snd (SessionRefreshingBotoClient_wrapper boto name args True
        (self\<lparr>client := c\<rparr>, ?s2)))) = trace ?s2 @ tr" "sleeps tr = []" "refreshes tr = 0"
      using sr_trace_True [of boto name args "self\<lparr>client := c\<rparr>" ?s2] by blast
    then show ?thesis
      unfolding r first
      by (intro exI [of _ "[Log DEBUG (''SessionRefreshingBotoClient: '' @ name), Request name,
                Log INFO ''Refreshing boto client session...'', NewClient] @ tr"]) simp
  next
    case no: False
    show ?thesis
      unfolding r using no
      by (auto simp add: SessionRefreshingBotoClient_wrapper.simps [of _ _ _ False] logger_def
          emit_def Let_def refresh_session_def
          split: option.splits attribute.splits prod.splits sum.splits exn.splits)
  qed
qed

lemma sr_trace_head:
  assumes "client self name = Some (Method f)"
  shows "\<exists>tr. trace (snd (snd (SessionRefreshingBotoClient_wrapper boto name args retried
                                 (self, s)))) =
           trace s @ [Log DEBUG (''SessionRefreshingBotoClient: '' @ name), Request name] @ tr"
  using assms
  by (auto simp add: SessionRefreshingBotoClient_wrapper.simps [of _ _ _ retried]
        SessionRefreshingBotoClient_wrapper.simps [of _ _ _ True] logger_def emit_def
          Let_def refresh_session_def
          split: option.splits attribute.splits prod.splits sum.splits exn.splits)

section \<open>One round of the throttling loop\<close>

text \<open>Anything but a rate-limited failure below the retry limit leaves the loop as it came.\<close>

lemma loop_passes:
  assumes "attr args st = (res, st')"
    and "\<forall>e. res = Inl (Client e) \<longrightarrow> \<not> rate_limited e \<or> \<not> count < MAX_RETRIES"
  shows "RequestThrottlingBotoClient_loop g attr args count st = (res, st')"
  using assms
  apply (subst RequestThrottlingBotoClient_loop.simps)
  apply (auto simp add: rate_limited_def split: sum.splits exn.splits prod.splits)
  done

text \<open>
  A rate-limited failure below the limit: the notice is logged, then \<open>time.sleep\<close> is
  evaluated. Where the namespace binds \<open>time\<close> the loop sleeps and goes round again; where it
  does not, the lookup raises and the call ends.
\<close>

lemma loop_backs_off:
  assumes "attr args st = (Inl (Client e), c, s)" and "rate_limited e" and "count < MAX_RETRIES"
  shows "RequestThrottlingBotoClient_loop g attr args count st =
           (let s1 = logger INFO (''Throttling AWS API requests: '' @
                        format_round1 (get_retry_sleep_duration count) @ ''s...'') s
            in if ''time'' \<in> set g
               then RequestThrottlingBotoClient_loop g attr args (Suc count)
                      (c, emit (Sleep (get_retry_sleep_duration count)) s1)
               else (Inl (NameError ''time''), c, s1))"
  using assms
  apply (subst RequestThrottlingBotoClient_loop.simps)
  apply (auto simp add: rate_limited_def time_sleep_def Let_def)
  done

text \<open>
  The throttling loop around the refresh layer: what it adds to the trace after the first
  pass. Each new client is paid for by a sleep before it, and there are at most
  \<open>MAX_RETRIES - count\<close> sleeps.
\<close>

lemma loop_trace:
  "\<exists>tr. trace (snd (snd (RequestThrottlingBotoClient_loop g
              (SessionRefreshingBotoClient_wrap_callable boto name) args count (c, s)))) =
          trace (snd (snd (SessionRefreshingBotoClient_wrap_callable boto name args (c, s)))) @ tr
        \<and> refreshes tr \<le> length (sleeps tr)
        \<and> length (sleeps tr) \<le> MAX_RETRIES - count
        \<and> (''time'' \<notin> set g \<longrightarrow> sleeps tr = [])"
proof (induction n \<equiv> "MAX_RETRIES - count" arbitrary: count c s)
  case 0
  obtain res c1 s1 where
    r: "SessionRefreshingBotoClient_wrap_callable boto name args (c, s) = (res, c1, s1)"
    by (metis prod_cases3)
  have "RequestThrottlingBotoClient_loop g (SessionRefreshingBotoClient_wrap_callable boto name)
          args count (c, s) = (res, c1, s1)"
    using r
    by (rule loop_passes [where attr = "SessionRefreshingBotoClient_wrap_callable boto name"])
       (use 0 in simp)
  then show ?case by (simp add: r)
next
  case (Suc n)
  let ?W = "SessionRefreshingBotoClient_wrap_callable boto name"
  obtain res c1 s1 where r: "?W args (c, s) = (res, c1, s1)"
    by (metis prod_cases3)
  show ?case
  proof (cases "\<exists>e. res = Inl (Client e) \<and> rate_limited e")
    case True
    then obtain e where e: "res = Inl (Client e)" "rate_limited e" by blast
    have lt: "count < MAX_RETRIES" using Suc(2) by simp
    let ?notice = "Log INFO (''Throttling AWS API requests: '' @
                        format_round1 (get_retry_sleep_duration count) @ ''s...'')"
    let ?s2 = "logger INFO (''Throttling AWS API requests: '' @
                        format_round1 (get_retry_sleep_duration count) @ ''s...'') s1"
    let ?s3 = "emit (Sleep (get_retry_sleep_duration count)) ?s2"
    have step: "RequestThrottlingBotoClient_loop g ?W args count (c, s) =
           (if ''time'' \<in> set g
               then RequestThrottlingBotoClient_loop g ?W args (Suc count) (c1, ?s3)
               else (Inl (NameError ''time''), c1, ?s2))"
      using r [unfolded e] e(2) lt
      by (simp add: loop_backs_off [where attr = ?W and e = e and c = c1 and s = s1] Let_def)
    show ?thesis
    proof (cases "''time'' \<in> set g")
      case False
      then show ?thesis
        unfolding step by (simp add: r)
    next
      case True
      have n: "n = MAX_RETRIES - Suc count" using Suc(2) by simp
      obtain tr2 where tr2:
        "trace (snd (snd (RequestThrottlingBotoClient_loop g ?W args (Suc count) (c1, ?s3)))) =
          trace (snd (snd (?W args (c1, ?s3)))) @ tr2"
        "refreshes tr2 \<le> length (sleeps tr2)" "length (sleeps tr2) \<le> MAX_RETRIES - Suc count"
        using Suc(1) [OF n, of c1 ?s3] by blast
      obtain tr1 where tr1: "trace (snd (snd (?W args (c1, ?s3)))) = trace ?s3 @ tr1"
        "sleeps tr1 = []" "refreshes tr1 \<le> 1"
        using sr_trace [of boto name args False c1 ?s3]
        unfolding SessionRefreshingBotoClient_wrap_callable_def by blast
      let ?tr = "[?notice, Sleep (get_retry_sleep_duration count)] @ tr1 @ tr2"
      have "trace (snd (snd (RequestThrottlingBotoClient_loop g ?W args count (c, s)))) =
          trace s1 @ ?tr"
        unfolding step using True tr2(1) tr1(1) by simp
      moreover have "refreshes ?tr \<le> length (sleeps ?tr)"
        using tr1(2,3) tr2(2) by simp
      moreover have "length (sleeps ?tr) \<le> MAX_RETRIES - count"
        using tr1(2) tr2(3) lt by simp
      ultimately show ?thesis
        using True by (simp add: r)
    qed
  next
    case False
    have "RequestThrottlingBotoClient_loop g ?W args count (c, s) = (res, c1, s1)"
      using r by (rule loop_passes [where attr = ?W]) (use False in blast)
    then show ?thesis by (simp add: r)
  qed
qed

section \<open>The composed handle\<close>

text \<open>For the name of a method of the client, the call runs the loop around the refresh layer.\<close>

lemma invoke_method:
  assumes "client (wrapped h) name = Some (Method f)"
  shows "invoke g boto name args (h, s) =
           (case RequestThrottlingBotoClient_loop g
                   (SessionRefreshingBotoClient_wrap_callable boto name) args 0
                   (wrapped h, logger DEBUG (''RequestThrottlingBotoClient: '' @ name) s) of
              (res, c, s') \<Rightarrow> (res, RequestThrottlingBotoClient c, s'))"
  using assms
  by (simp add: invoke_def handle_getattr_def RequestThrottlingBotoClient_getattr_def
      SessionRefreshingBotoClient_getattr_def RequestThrottlingBotoClient_wrap_callable_def)


text \<open>What leaves the refresh layer and is not rate-limited leaves the handle unchanged.\<close>

lemma invoke_passes:
  assumes "client (wrapped h) name = Some (Method f)"
    and "SessionRefreshingBotoClient_wrapper boto name args False
           (wrapped h, logger DEBUG (''RequestThrottlingBotoClient: '' @ name) s) = (res, c, s')"
    and "\<forall>e. res = Inl (Client e) \<longrightarrow> \<not> rate_limited e"
  shows "invoke g boto name args (h, s) = (res, RequestThrottlingBotoClient c, s')"
proof -
  let ?W = "SessionRefreshingBotoClient_wrap_callable boto name"
  let ?s1 = "logger DEBUG (''RequestThrottlingBotoClient: '' @ name) s"
  have "?W args (wrapped h, ?s1) = (res, c, s')"
    using assms(2) by (simp add: SessionRefreshingBotoClient_wrap_callable_def)
  then have "RequestThrottlingBotoClient_loop g ?W args 0 (wrapped h, ?s1) = (res, c, s')"
    by (rule loop_passes [where attr = ?W and args = args]) (use assms(3) in blast)
  then show ?thesis
    by (subst invoke_method [OF assms(1)]) simp
qed

text \<open>An expired first forward, a refresh that succeeds, and a second forward.\<close>

lemma invoke_refresh_then:
  assumes "client (wrapped h) name = Some (Method f)"
    and "f args (remote s) = (Inl (Client e), w1)"
    and "credentials_expired e"
    and "boto (profile_name (wrapped h)) (service_name (wrapped h)) (region_name (wrapped h)) w1
           = (Inr c, w2)"
    and "c name = Some (Method f')"
    and "f' args w2 = (res, w3)"
    and "\<forall>e'. res = Inl (Client e') \<longrightarrow> \<not> rate_limited e'"
  shows "invoke g boto name args (h, s) =
           (res, RequestThrottlingBotoClient ((wrapped h)\<lparr>client := c\<rparr>),
            s\<lparr>trace := trace s @
               [Log DEBUG (''RequestThrottlingBotoClient: '' @ name),
                Log DEBUG (''SessionRefreshingBotoClient: '' @ name), Request name,
                Log INFO ''Refreshing boto client session...'', NewClient,
                Log DEBUG (''SessionRefreshingBotoClient: '' @ name), Request name],
              remote := w3\<rparr>)"
proof -
  let ?s1 = "logger DEBUG (''RequestThrottlingBotoClient: '' @ name) s"
  let ?tr = "[Log DEBUG (''SessionRefreshingBotoClient: '' @ name), Request name,
                Log INFO ''Refreshing boto client session...'', NewClient,
                Log DEBUG (''SessionRefreshingBotoClient: '' @ name), Request name]"
  have fwd: "f args (remote ?s1) = (Inl (Client e), w1)"
    using assms(2) by simp
  have ex: "Code e = ''RequestExpired''"
    using assms(3) by (simp add: credentials_expired_def)
  have "invoke g boto name args (h, s) =
      (res, RequestThrottlingBotoClient ((wrapped h)\<lparr>client := c\<rparr>),
       ?s1\<lparr>trace := trace ?s1 @ ?tr, remote := w3\<rparr>)"
  proof (rule invoke_passes [where f = f])
    show "SessionRefreshingBotoClient_wrapper boto name args False (wrapped h, ?s1) =
      (res, (wrapped h)\<lparr>client := c\<rparr>, ?s1\<lparr>trace := trace ?s1 @ ?tr, remote := w3\<rparr>)"
      using assms(1) fwd ex assms(4,5,6)
      by (rule sr_refresh_then
            [where f = f and f' = f' and e = e and ?w1.0 = w1 and ?w2.0 = w2])
  qed (use assms(1,7) in simp_all)
  then show ?thesis
    by (simp add: logger_def)
qed


text \<open>The first three events of a call of a method: the two layers in order, then the request.\<close>

lemma invoke_enters:
  assumes "client (wrapped h) name = Some (Method f)"
  shows "\<exists>tr. trace (snd (snd (invoke g boto name args (h, s)))) =
           trace s @ [Log DEBUG (''RequestThrottlingBotoClient: '' @ name),
                      Log DEBUG (''SessionRefreshingBotoClient: '' @ name), Request name] @ tr"
proof -
  let ?s1 = "logger DEBUG (''RequestThrottlingBotoClient: '' @ name) s"
  let ?W = "SessionRefreshingBotoClient_wrap_callable boto name"
  obtain tr2 where tr2:
    "trace (snd (snd (RequestThrottlingBotoClient_loop g ?W args 0 (wrapped h, ?s1)))) =
          trace (snd (snd (?W args (wrapped h, ?s1)))) @ tr2"
    using loop_trace [of g boto name args 0 "wrapped h" ?s1] by blast
  obtain tr1 where tr1: "trace (snd (snd (?W args (wrapped h, ?s1)))) =
      trace ?s1 @ [Log DEBUG (''SessionRefreshingBotoClient: '' @ name), Request name] @ tr1"
    using sr_trace_head [OF assms, of boto args False ?s1]
    unfolding SessionRefreshingBotoClient_wrap_callable_def by blast
  have "trace (snd (snd (invoke g boto name args (h, s)))) =
      trace (snd (snd (RequestThrottlingBotoClient_loop g ?W args 0 (wrapped h, ?s1))))"
    by (subst invoke_method [OF assms]) (simp split: prod.splits)
  then have "trace (snd (snd (invoke g boto name args (h, s)))) =
      trace s @ [Log DEBUG (''RequestThrottlingBotoClient: '' @ name),
                 Log DEBUG (''SessionRefreshingBotoClient: '' @ name), Request name] @ (tr1 @ tr2)"
    using tr2(1) tr1(1) by simp
  then show ?thesis by blast
qed

section \<open>The backoff policy\<close>


section \<open>Calls that need no retry\<close>

text \<open>
  C5. For every operation and argument pack, if the first forward to the boto3 client
  succeeds, the composed handle returns that very result and leaves the remote state as
  the undecorated call leaves it; the handle is unchanged, and the trace gains the two
  debug records and the one request only: no sleep, no new client, no second request.
\<close>

theorem first_success_is_transparent:
  assumes "client (wrapped h) name = Some (Method f)"
    and "f args (remote s) = (Inr r, w)"
  shows "invoke g boto name args (h, s) =
           (Inr r, h, s\<lparr>trace := trace s @
               [Log DEBUG (''RequestThrottlingBotoClient: '' @ name),
                Log DEBUG (''SessionRefreshingBotoClient: '' @ name),
                Request name], remote := w\<rparr>)"
proof -
  let ?s1 = "logger DEBUG (''RequestThrottlingBotoClient: '' @ name) s"
  have fwd: "f args (remote ?s1) = (Inr r, w)"
    using assms(2) by simp
  have "invoke g boto name args (h, s) = (Inr r, RequestThrottlingBotoClient (wrapped h),
      ?s1\<lparr>trace := trace ?s1 @
         [Log DEBUG (''SessionRefreshingBotoClient: '' @ name), Request name], remote := w\<rparr>)"
  proof (rule invoke_passes [where f = f])
    show "SessionRefreshingBotoClient_wrapper boto name args False (wrapped h, ?s1) =
      (Inr r, wrapped h, ?s1\<lparr>trace := trace ?s1 @
         [Log DEBUG (''SessionRefreshingBotoClient: '' @ name), Request name], remote := w\<rparr>)"
      using assms(1) fwd by (rule sr_returns [where f = f])
  qed (use assms(1) in simp_all)
  then show ?thesis
    by (simp add: logger_def)
qed

theorem first_success_is_transparent_witness:
  "client (wrapped ec2) ''describe_instances'' = Some (Method describe_instances)
   \<and> describe_instances () (remote \<lparr>remote = [Inr ''reservations''], trace = []\<rparr>) =
       (Inr ''reservations'', [])
   \<and> invoke aws_globals scripted_boto3 ''describe_instances'' ()
         (ec2, \<lparr>remote = [Inr ''reservations''], trace = []\<rparr>) =
       (Inr ''reservations'', ec2,
        \<lparr>remote = [],
         trace = [Log DEBUG ''RequestThrottlingBotoClient: describe_instances'',
                  Log DEBUG ''SessionRefreshingBotoClient: describe_instances'',
                  Request ''describe_instances'']\<rparr>)"
proof -
  have m: "client (wrapped ec2) ''describe_instances'' = Some (Method describe_instances)"
    by (simp add: ec2_def scripted_client_def)
  have f: "describe_instances () (remote \<lparr>remote = [Inr ''reservations''], trace = []\<rparr>) =
       (Inr ''reservations'', [])"
    by (simp add: describe_instances_def)
  show ?thesis
    using m f first_success_is_transparent
      [where h = ec2 and name = "''describe_instances''" and f = describe_instances
         and args = "()" and s = "\<lparr>remote = [Inr ''reservations''], trace = []\<rparr>"
         and r = "''reservations''" and w = "[]" and g = aws_globals and boto = scripted_boto3,
       OF m f]
    by simp
qed

text \<open>
  C7. For every call whose first forward fails with a failure of neither kind (a
  \<open>ClientError\<close> that is neither credentials-expired nor rate-limited, or any other
  exception), the composed handle raises that failure unchanged after this one request: no
  sleep, no new client, the handle unchanged.
\<close>

theorem other_failure_propagates_at_once:
  assumes "client (wrapped h) name = Some (Method f)"
    and "f args (remote s) = (Inl x, w)"
    and "\<forall>e. x = Client e \<longrightarrow> \<not> credentials_expired e \<and> \<not> rate_limited e"
  shows "invoke g boto name args (h, s) =
           (Inl x, h, s\<lparr>trace := trace s @
               [Log DEBUG (''RequestThrottlingBotoClient: '' @ name),
                Log DEBUG (''SessionRefreshingBotoClient: '' @ name),
                Request name], remote := w\<rparr>)"
proof -
  let ?s1 = "logger DEBUG (''RequestThrottlingBotoClient: '' @ name) s"
  have fwd: "f args (remote ?s1) = (Inl x, w)"
    using assms(2) by simp
  have no: "False \<or> (\<forall>e. x = Client e \<longrightarrow> Code e \<noteq> ''RequestExpired'')"
    using assms(3) by (simp add: credentials_expired_def)
  have "invoke g boto name args (h, s) = (Inl x, RequestThrottlingBotoClient (wrapped h),
      ?s1\<lparr>trace := trace ?s1 @
         [Log DEBUG (''SessionRefreshingBotoClient: '' @ name), Request name], remote := w\<rparr>)"
  proof (rule invoke_passes [where f = f])
    show "SessionRefreshingBotoClient_wrapper boto name args False (wrapped h, ?s1) =
      (Inl x, wrapped h, ?s1\<lparr>trace := trace ?s1 @
         [Log DEBUG (''SessionRefreshingBotoClient: '' @ name), Request name], remote := w\<rparr>)"
      using assms(1) fwd no by (rule sr_propagates [where f = f])
  qed (use assms(1,3) in simp_all)
  then show ?thesis
    by (simp add: logger_def)
qed

theorem other_failure_propagates_at_once_witness:
  "client (wrapped ec2) ''describe_instances'' = Some (Method describe_instances)
   \<and> describe_instances () (remote \<lparr>remote = [Inl (Client denied), Inr ''late''], trace = []\<rparr>) =
       (Inl (Client denied), [Inr ''late''])
   \<and> \<not> credentials_expired denied \<and> \<not> rate_limited denied
   \<and> invoke aws_globals scripted_boto3 ''describe_instances'' ()
         (ec2, \<lparr>remote = [Inl (Client denied), Inr ''late''], trace = []\<rparr>) =
       (Inl (Client denied), ec2,
        \<lparr>remote = [Inr ''late''],
         trace = [Log DEBUG ''RequestThrottlingBotoClient: describe_instances'',
                  Log DEBUG ''SessionRefreshingBotoClient: describe_instances'',
                  Request ''describe_instances'']\<rparr>)"
proof -
  have m: "client (wrapped ec2) ''describe_instances'' = Some (Method describe_instances)"
    by (simp add: ec2_def scripted_client_def)
  have f: "describe_instances ()
             (remote \<lparr>remote = [Inl (Client denied), Inr ''late''], trace = []\<rparr>) =
       (Inl (Client denied), [Inr ''late''])"
    by (simp add: describe_instances_def)
  have k: "\<forall>e. Client denied = Client e \<longrightarrow> \<not> credentials_expired e \<and> \<not> rate_limited e"
    by (simp add: denied_def credentials_expired_def rate_limited_def)
  show ?thesis
    using m f k other_failure_propagates_at_once
      [where h = ec2 and name = "''describe_instances''" and f = describe_instances
         and args = "()" and s = "\<lparr>remote = [Inl (Client denied), Inr ''late''], trace = []\<rparr>"
         and x = "Client denied" and w = "[Inr ''late'']" and g = aws_globals
         and boto = scripted_boto3,
       OF m f k]
    by simp
qed

section \<open>Expired credentials\<close>

text \<open>
  C4. For every call whose first forward fails with the credentials-expired kind and whose
  repeated forward, on the client of the refreshed session, succeeds, the composed handle
  returns that success, and exactly one session refresh happens in the call: the trace
  gains one \<open>NewClient\<close>, and the client of the handle is replaced by the new one.
\<close>

theorem one_refresh_then_success:
  assumes "client (wrapped h) name = Some (Method f)"
    and "f args (remote s) = (Inl (Client e), w1)"
    and "credentials_expired e"
    and "boto (profile_name (wrapped h)) (service_name (wrapped h)) (region_name (wrapped h)) w1
           = (Inr c, w2)"
    and "c name = Some (Method f')"
    and "f' args w2 = (Inr r, w3)"
  shows "invoke g boto name args (h, s) =
           (Inr r, RequestThrottlingBotoClient ((wrapped h)\<lparr>client := c\<rparr>),
            s\<lparr>trace := trace s @
               [Log DEBUG (''RequestThrottlingBotoClient: '' @ name),
                Log DEBUG (''SessionRefreshingBotoClient: '' @ name), Request name,
                Log INFO ''Refreshing boto client session...'', NewClient,
                Log DEBUG (''SessionRefreshingBotoClient: '' @ name), Request name],
              remote := w3\<rparr>)
         \<and> refreshes (trace (snd (snd (invoke g boto name args (h, s))))) =
             Suc (refreshes (trace s))"
proof -
  have "invoke g boto name args (h, s) =
           (Inr r, RequestThrottlingBotoClient ((wrapped h)\<lparr>client := c\<rparr>),
            s\<lparr>trace := trace s @
               [Log DEBUG (''RequestThrottlingBotoClient: '' @ name),
                Log DEBUG (''SessionRefreshingBotoClient: '' @ name), Request name,
                Log INFO ''Refreshing boto client session...'', NewClient,
                Log DEBUG (''SessionRefreshingBotoClient: '' @ name), Request name],
              remote := w3\<rparr>)"
    using assms
    by (rule invoke_refresh_then
          [where f = f and f' = f' and e = e and ?w1.0 = w1 and ?w2.0 = w2]) simp
  then show ?thesis by simp
qed

theorem one_refresh_then_success_witness:
  "client (wrapped ec2) ''describe_instances'' = Some (Method describe_instances)
   \<and> describe_instances ()
        (remote \<lparr>remote = [Inl (Client expired), Inr ''reservations''], trace = []\<rparr>) =
       (Inl (Client expired), [Inr ''reservations''])
   \<and> credentials_expired expired
   \<and> scripted_boto3 (profile_name (wrapped ec2)) (service_name (wrapped ec2))
        (region_name (wrapped ec2)) [Inr ''reservations''] =
       (Inr scripted_client, [Inr ''reservations''])
   \<and> scripted_client ''describe_instances'' = Some (Method describe_instances)
   \<and> describe_instances () [Inr ''reservations''] = (Inr ''reservations'', [])
   \<and> invoke aws_globals scripted_boto3 ''describe_instances'' ()
         (ec2, \<lparr>remote = [Inl (Client expired), Inr ''reservations''], trace = []\<rparr>) =
       (Inr ''reservations'', ec2,
        \<lparr>remote = [],
         trace = [Log DEBUG ''RequestThrottlingBotoClient: describe_instances'',
                  Log DEBUG ''SessionRefreshingBotoClient: describe_instances'',
                  Request ''describe_instances'',
                  Log INFO ''Refreshing boto client session...'', NewClient,
                  Log DEBUG ''SessionRefreshingBotoClient: describe_instances'',
                  Request ''describe_instances'']\<rparr>)
   \<and> refreshes (trace (snd (snd (invoke aws_globals scripted_boto3 ''describe_instances'' ()
         (ec2, \<lparr>remote = [Inl (Client expired), Inr ''reservations''], trace = []\<rparr>))))) = 1"
proof -
  let ?s = "\<lparr>remote = [Inl (Client expired), Inr ''reservations''], trace = []\<rparr>"
  have a1: "client (wrapped ec2) ''describe_instances'' = Some (Method describe_instances)"
    by (simp add: ec2_def scripted_client_def)
  have a2: "describe_instances () (remote ?s) = (Inl (Client expired), [Inr ''reservations''])"
    by (simp add: describe_instances_def)
  have a3: "credentials_expired expired"
    by (simp add: credentials_expired_def expired_def)
  have a4: "scripted_boto3 (profile_name (wrapped ec2)) (service_name (wrapped ec2))
        (region_name (wrapped ec2)) [Inr ''reservations''] =
       (Inr scripted_client, [Inr ''reservations''])"
    by (simp add: scripted_boto3_def)
  have a5: "scripted_client ''describe_instances'' = Some (Method describe_instances)"
    by (simp add: scripted_client_def)
  have a6: "describe_instances () [Inr ''reservations''] = (Inr ''reservations'', [])"
    by (simp add: describe_instances_def)
  have same: "RequestThrottlingBotoClient ((wrapped ec2)\<lparr>client := scripted_client\<rparr>) = ec2"
    by (simp add: ec2_def)
  show ?thesis
    using a1 a2 a3 a4 a5 a6 one_refresh_then_success
      [where h = ec2 and name = "''describe_instances''" and f = describe_instances
         and args = "()" and s = ?s and e = expired and ?w1.0 = "[Inr ''reservations'']"
         and boto = scripted_boto3 and c = scripted_client and ?w2.0 = "[Inr ''reservations'']"
         and f' = describe_instances and r = "''reservations''" and ?w3.0 = "[]"
         and g = aws_globals,
       OF a1 a2 a3 a4 a5 a6]
    by (simp add: same)
qed

text \<open>A rate-limited failure out of the refresh layer, in a namespace that does not bind \<open>time\<close>.\<close>

lemma invoke_unbound_time:
  assumes "client (wrapped h) name = Some (Method f)"
    and "SessionRefreshingBotoClient_wrapper boto name args False
           (wrapped h, logger DEBUG (''RequestThrottlingBotoClient: '' @ name) s) =
         (Inl (Client e), c, s')"
    and "rate_limited e"
    and "''time'' \<notin> set g"
  shows "invoke g boto name args (h, s) =
           (Inl (NameError ''time''), RequestThrottlingBotoClient c,
            s'\<lparr>trace := trace s' @ [Log INFO ''Throttling AWS API requests: 0.5s...'']\<rparr>)"
proof -
  let ?W = "SessionRefreshingBotoClient_wrap_callable boto name"
  let ?s1 = "logger DEBUG (''RequestThrottlingBotoClient: '' @ name) s"
  have w: "?W args (wrapped h, ?s1) = (Inl (Client e), c, s')"
    using assms(2) by (simp add: SessionRefreshingBotoClient_wrap_callable_def)
  have "0 < MAX_RETRIES"
    by (simp add: MAX_RETRIES_def)
  with w assms(3) have "RequestThrottlingBotoClient_loop g ?W args 0 (wrapped h, ?s1) =
           (let s1 = logger INFO (''Throttling AWS API requests: '' @
                        format_round1 (get_retry_sleep_duration 0) @ ''s...'') s'
            in if ''time'' \<in> set g
               then RequestThrottlingBotoClient_loop g ?W args (Suc 0)
                      (c, emit (Sleep (get_retry_sleep_duration 0)) s1)
               else (Inl (NameError ''time''), c, s1))"
    by (rule loop_backs_off [where attr = ?W and e = e and c = c and s = s'])
  with assms(4) have "RequestThrottlingBotoClient_loop g ?W args 0 (wrapped h, ?s1) =
          (Inl (NameError ''time''), c,
           logger INFO (''Throttling AWS API requests: '' @
              format_round1 (get_retry_sleep_duration 0) @ ''s...'') s')"
    by (simp add: Let_def)
  then show ?thesis
    by (subst invoke_method [OF assms(1)]) (simp add: first_wait_text logger_def)
qed




section \<open>How the proxies classify a failure\<close>




section \<open>The factory and attribute access\<close>

text \<open>
  C9. For every service name, region and profile for which the first session can be
  established, \<open>boto_client\<close> returns a \<open>RequestThrottlingBotoClient\<close> whose wrapped client
  is the \<open>SessionRefreshingBotoClient\<close> of that profile, service and region, which holds
  the boto3 client; and every call of a method through that handle enters the throttling
  layer first and the refresh layer second.
\<close>

theorem boto_client_composition:
  assumes "boto profile service region (remote s0) = (Inr c, w)"
  shows "boto_client boto service region profile s0 =
           (Inr (RequestThrottlingBotoClient
                  \<lparr>profile_name = profile, service_name = service, region_name = region,
                   client = c\<rparr>),
            s0\<lparr>trace := trace s0 @ [NewClient], remote := w\<rparr>)
         \<and> (\<forall>g name args s f. c name = Some (Method f) \<longrightarrow>
               (\<exists>tr. trace (snd (snd (invoke g boto name args
                          (RequestThrottlingBotoClient
                             \<lparr>profile_name = profile, service_name = service,
                              region_name = region, client = c\<rparr>, s)))) =
                     trace s @ [Log DEBUG (''RequestThrottlingBotoClient: '' @ name),
                                Log DEBUG (''SessionRefreshingBotoClient: '' @ name)] @ tr))"
proof (intro conjI allI impI)
  show "boto_client boto service region profile s0 =
           (Inr (RequestThrottlingBotoClient
                  \<lparr>profile_name = profile, service_name = service, region_name = region,
                   client = c\<rparr>),
            s0\<lparr>trace := trace s0 @ [NewClient], remote := w\<rparr>)"
    using assms
    by (simp add: boto_client_def SessionRefreshingBotoClient_init_def refresh_session_def
        emit_def)
next
  fix g name args s f
  assume m: "c name = Some (Method f)"
  let ?h = "RequestThrottlingBotoClient
                             \<lparr>profile_name = profile, service_name = service,
                              region_name = region, client = c\<rparr>"
  have "client (wrapped ?h) name = Some (Method f)" using m by simp
  from invoke_enters [OF this, of g boto args s]
  obtain tr where "trace (snd (snd (invoke g boto name args (?h, s)))) =
           trace s @ [Log DEBUG (''RequestThrottlingBotoClient: '' @ name),
                      Log DEBUG (''SessionRefreshingBotoClient: '' @ name), Request name] @ tr"
    by blast
  then have "trace (snd (snd (invoke g boto name args (?h, s)))) =
           trace s @ [Log DEBUG (''RequestThrottlingBotoClient: '' @ name),
                      Log DEBUG (''SessionRefreshingBotoClient: '' @ name)] @ (Request name # tr)"
    by simp
  then show "\<exists>tr. trace (snd (snd (invoke g boto name args (?h, s)))) =
                     trace s @ [Log DEBUG (''RequestThrottlingBotoClient: '' @ name),
                                Log DEBUG (''SessionRefreshingBotoClient: '' @ name)] @ tr"
    by blast
qed

theorem boto_client_composition_witness:
  "scripted_boto3 None ''ec2'' None (remote \<lparr>remote = [Inr ''reservations''], trace = []\<rparr>) =
     (Inr scripted_client, [Inr ''reservations''])
   \<and> boto_client scripted_boto3 ''ec2'' None None \<lparr>remote = [Inr ''reservations''], trace = []\<rparr> =
     (Inr ec2, \<lparr>remote = [Inr ''reservations''], trace = [NewClient]\<rparr>)
   \<and> scripted_client ''describe_instances'' = Some (Method describe_instances)
   \<and> (\<exists>tr. trace (snd (snd (invoke aws_globals scripted_boto3 ''describe_instances'' ()
                (ec2, \<lparr>remote = [Inr ''reservations''], trace = [NewClient]\<rparr>)))) =
            [NewClient] @ [Log DEBUG ''RequestThrottlingBotoClient: describe_instances'',
                           Log DEBUG ''SessionRefreshingBotoClient: describe_instances''] @ tr)"
proof -
  let ?init = "\<lparr>remote = [Inr ''reservations''], trace = []\<rparr> :: (exn + string) list sys"
  let ?st = "\<lparr>remote = [Inr ''reservations''], trace = [NewClient]\<rparr> :: (exn + string) list sys"
  have a: "scripted_boto3 None ''ec2'' None (remote ?init) =
             (Inr scripted_client, [Inr ''reservations''])"
    by (simp add: scripted_boto3_def)
  have m: "scripted_client ''describe_instances'' = Some (Method describe_instances)"
    by (simp add: scripted_client_def)
  note t = boto_client_composition
      [where boto = scripted_boto3 and profile = None and service = "''ec2''" and region = None
         and ?s0.0 = ?init and c = scripted_client and w = "[Inr ''reservations'']", OF a]
  from t have built: "boto_client scripted_boto3 ''ec2'' None None ?init = (Inr ec2, ?st)"
    by (simp add: ec2_def)
  from t [THEN conjunct2, rule_format, where g = aws_globals
            and name = "''describe_instances''" and args = "()" and s = ?st
            and f = describe_instances, OF m]
  have "\<exists>tr. trace (snd (snd (invoke aws_globals scripted_boto3 ''describe_instances'' ()
                (RequestThrottlingBotoClient
                   \<lparr>profile_name = None, service_name = ''ec2'', region_name = None,
                    client = scripted_client\<rparr>, ?st)))) =
            trace ?st @ [Log DEBUG (''RequestThrottlingBotoClient: '' @ ''describe_instances''),
                        Log DEBUG (''SessionRefreshingBotoClient: '' @ ''describe_instances'')] @ tr"
    .
  then have entered: "\<exists>tr. trace (snd (snd (invoke aws_globals scripted_boto3
                ''describe_instances'' () (ec2, ?st)))) =
            [NewClient] @ [Log DEBUG ''RequestThrottlingBotoClient: describe_instances'',
                           Log DEBUG ''SessionRefreshingBotoClient: describe_instances''] @ tr"
    by (simp add: ec2_def)
  from a built m entered show ?thesis by blast
qed

text \<open>
  C10. For every attribute name that resolves to a plain (non-callable) attribute of the
  wrapped client, \<open>__getattr__\<close> of either proxy returns that value itself, not a wrapper:
  reading it runs no loop, logs nothing, sleeps for nothing and refreshes nothing. So does
  the composed handle for a plain attribute of the boto3 client.
\<close>

theorem plain_attribute_passes_through:
  "(client self name = Some (Value v) \<longrightarrow>
      SessionRefreshingBotoClient_getattr boto self name = Inr (Value v))
   \<and> (ga (wrapped h) name = Inr (Value v) \<longrightarrow>
      RequestThrottlingBotoClient_getattr g ga h name = Inr (Value v))
   \<and> (client (wrapped h') name = Some (Value v) \<longrightarrow>
      handle_getattr g boto h' name = Inr (Value v))"
  by (simp add: SessionRefreshingBotoClient_getattr_def RequestThrottlingBotoClient_getattr_def
      handle_getattr_def)

theorem plain_attribute_passes_through_witness:
  "client (wrapped ec2) ''meta'' = Some (Value ''ClientMeta'')
   \<and> SessionRefreshingBotoClient_getattr scripted_boto3 (wrapped ec2) ''meta'' =
       Inr (Value ''ClientMeta'')
   \<and> RequestThrottlingBotoClient_getattr aws_globals
         (SessionRefreshingBotoClient_getattr scripted_boto3) ec2 ''meta'' =
       Inr (Value ''ClientMeta'')
   \<and> handle_getattr aws_globals scripted_boto3 ec2 ''meta'' = Inr (Value ''ClientMeta'')"
proof -
  have a: "client (wrapped ec2) ''meta'' = Some (Value ''ClientMeta'')"
    by (simp add: ec2_def scripted_client_def)
  note t = plain_attribute_passes_through
      [where self = "wrapped ec2" and name = "''meta''" and v = "''ClientMeta''"
         and boto = scripted_boto3 and ga = "SessionRefreshingBotoClient_getattr scripted_boto3"
         and h = ec2 and g = aws_globals and h' = ec2]
  from t a have b: "SessionRefreshingBotoClient_getattr scripted_boto3 (wrapped ec2) ''meta'' =
       Inr (Value ''ClientMeta'')"
    by blast
  from t b have c: "RequestThrottlingBotoClient_getattr aws_globals
         (SessionRefreshingBotoClient_getattr scripted_boto3) ec2 ''meta'' =
       Inr (Value ''ClientMeta'')"
    by blast
  from t a have d: "handle_getattr aws_globals scripted_boto3 ec2 ''meta'' =
       Inr (Value ''ClientMeta'')"
    by blast
  from a b c d show ?thesis by blast
qed

section \<open>Throttled calls\<close>

text \<open>
  The module never binds the name \<open>time\<close>, so its first throttled call ends in the
  \<open>NameError\<close> of \<open>time.sleep\<close>: after one request, with the notice logged and no sleep.
\<close>

lemma invoke_throttled_unbound:
  assumes "client (wrapped h) name = Some (Method f)"
    and "f args (remote s) = (Inl (Client e), w)"
    and "\<not> credentials_expired e" and "rate_limited e" and "''time'' \<notin> set g"
  shows "invoke g boto name args (h, s) =
           (Inl (NameError ''time''), h,
            s\<lparr>trace := trace s @
               [Log DEBUG (''RequestThrottlingBotoClient: '' @ name),
                Log DEBUG (''SessionRefreshingBotoClient: '' @ name), Request name,
                Log INFO ''Throttling AWS API requests: 0.5s...''],
              remote := w\<rparr>)"
proof -
  let ?s1 = "logger DEBUG (''RequestThrottlingBotoClient: '' @ name) s"
  let ?s2 = "?s1\<lparr>trace := trace ?s1 @
              [Log DEBUG (''SessionRefreshingBotoClient: '' @ name), Request name],
              remote := w\<rparr>"
  have fwd: "f args (remote ?s1) = (Inl (Client e), w)"
    using assms(2) by simp
  have no: "False \<or> (\<forall>e'. Client e = Client e' \<longrightarrow> Code e' \<noteq> ''RequestExpired'')"
    using assms(3) by (simp add: credentials_expired_def)
  have inner: "SessionRefreshingBotoClient_wrapper boto name args False (wrapped h, ?s1) =
      (Inl (Client e), wrapped h, ?s2)"
    using assms(1) fwd no by (rule sr_propagates [where f = f])
  have "invoke g boto name args (h, s) =
      (Inl (NameError ''time''), RequestThrottlingBotoClient (wrapped h),
       ?s2\<lparr>trace := trace ?s2 @ [Log INFO ''Throttling AWS API requests: 0.5s...'']\<rparr>)"
    using assms(1) inner assms(4,5) by (rule invoke_unbound_time [where f = f and e = e])
  then show ?thesis
    by (simp add: logger_def)
qed

text \<open>
  C1 says that a call throttled on attempts \<open>0\<close> to \<open>k\<close> and successful on attempt \<open>k + 1\<close>
  returns that success after waits of \<open>0.5 \<times> 2\<^sup>i\<close>. The module as written does not: at the
  scenario of the specification (throttled on attempts 0 to 2, success on attempt 3) it
  makes one request, logs the notice and raises \<open>NameError\<close>; the three remaining outcomes
  of the script are never asked for, and nothing is slept.
\<close>

theorem throttled_call_raises_NameError:
  "invoke aws_globals scripted_boto3 ''describe_instances'' ()
     (ec2, \<lparr>remote = [Inl (Client throttled), Inl (Client throttled), Inl (Client throttled),
                       Inr ''reservations''],
            trace = []\<rparr>) =
   (Inl (NameError ''time''), ec2,
    \<lparr>remote = [Inl (Client throttled), Inl (Client throttled), Inr ''reservations''],
     trace = [Log DEBUG ''RequestThrottlingBotoClient: describe_instances'',
              Log DEBUG ''SessionRefreshingBotoClient: describe_instances'',
              Request ''describe_instances'',
              Log INFO ''Throttling AWS API requests: 0.5s...'']\<rparr>)"
proof -
  let ?rest = "[Inl (Client throttled), Inl (Client throttled), Inr ''reservations'']
                 :: (exn + string) list"
  let ?s = "\<lparr>remote = Inl (Client throttled) # ?rest, trace = []\<rparr>"
  have a1: "client (wrapped ec2) ''describe_instances'' = Some (Method describe_instances)"
    by (simp add: ec2_def scripted_client_def)
  have a2: "describe_instances () (remote ?s) = (Inl (Client throttled), ?rest)"
    by (simp add: describe_instances_def)
  have a3: "\<not> credentials_expired throttled"
    by (simp add: credentials_expired_def throttled_def)
  have a4: "rate_limited throttled"
    by (simp add: rate_limited_def throttled_def)
  show ?thesis
    using invoke_throttled_unbound
      [where h = ec2 and name = "''describe_instances''" and f = describe_instances
         and args = "()" and s = ?s and e = throttled and w = ?rest and g = aws_globals
         and boto = scripted_boto3, OF a1 a2 a3 a4 time_unbound]
    by simp
qed

text \<open>
  C3 says that a call throttled on every attempt is tried eleven times and then raises
  the eleventh failure unchanged. The module as written does not: on a remote service that
  throttles all eleven attempts it makes one request and raises \<open>NameError\<close>, not the
  failure of the service.
\<close>

theorem always_throttled_raises_NameError:
  "invoke aws_globals scripted_boto3 ''describe_instances'' ()
     (ec2, \<lparr>remote = replicate 11 (Inl (Client throttled)), trace = []\<rparr>) =
   (Inl (NameError ''time''), ec2,
    \<lparr>remote = replicate 10 (Inl (Client throttled)),
     trace = [Log DEBUG ''RequestThrottlingBotoClient: describe_instances'',
              Log DEBUG ''SessionRefreshingBotoClient: describe_instances'',
              Request ''describe_instances'',
              Log INFO ''Throttling AWS API requests: 0.5s...'']\<rparr>)
   \<and> requests (trace (snd (snd (invoke aws_globals scripted_boto3 ''describe_instances'' ()
          (ec2, \<lparr>remote = replicate 11 (Inl (Client throttled)), trace = []\<rparr>))))) =
       [''describe_instances'']"
proof -
  let ?rest = "replicate 10 (Inl (Client throttled)) :: (exn + string) list"
  let ?s = "\<lparr>remote = Inl (Client throttled) # ?rest, trace = []\<rparr>"
  have eleven: "replicate 11 (Inl (Client throttled)) = Inl (Client throttled) # ?rest"
    by (simp add: eval_nat_numeral)
  have a1: "client (wrapped ec2) ''describe_instances'' = Some (Method describe_instances)"
    by (simp add: ec2_def scripted_client_def)
  have a2: "describe_instances () (remote ?s) = (Inl (Client throttled), ?rest)"
    by (simp add: describe_instances_def)
  have a3: "\<not> credentials_expired throttled"
    by (simp add: credentials_expired_def throttled_def)
  have a4: "rate_limited throttled"
    by (simp add: rate_limited_def throttled_def)
  have "invoke aws_globals scripted_boto3 ''describe_instances'' () (ec2, ?s) =
   (Inl (NameError ''time''), ec2,
    \<lparr>remote = ?rest,
     trace = [Log DEBUG ''RequestThrottlingBotoClient: describe_instances'',
              Log DEBUG ''SessionRefreshingBotoClient: describe_instances'',
              Request ''describe_instances'',
              Log INFO ''Throttling AWS API requests: 0.5s...'']\<rparr>)"
    using invoke_throttled_unbound
      [where h = ec2 and name = "''describe_instances''" and f = describe_instances
         and args = "()" and s = ?s and e = throttled and w = ?rest and g = aws_globals
         and boto = scripted_boto3, OF a1 a2 a3 a4 time_unbound]
    by simp
  then show ?thesis
    unfolding eleven by simp
qed

section \<open>The retry loop where \<open>time\<close> is bound\<close>

text \<open>
  What the loop does in a namespace that binds \<open>time\<close> (the module with \<open>import time\<close>
  added): \<open>n\<close> throttled forwards in a row, within the retry limit, are \<open>n\<close> rounds of the
  loop, each with its notice and its sleep.
\<close>

lemma loop_retries:
  assumes "''time'' \<in> set g" and "client self name = Some (Method f)"
    and "\<forall>i<n. \<exists>e. fst (f args (after_forwards f args i (remote s))) = Inl (Client e)
            \<and> rate_limited e \<and> \<not> credentials_expired e"
    and "count + n \<le> MAX_RETRIES"
  shows "RequestThrottlingBotoClient_loop g (SessionRefreshingBotoClient_wrap_callable boto name)
           args count (self, s) =
         RequestThrottlingBotoClient_loop g (SessionRefreshingBotoClient_wrap_callable boto name)
           args (count + n)
           (self, s\<lparr>trace := trace s @ concat (map (throttled_round name) [count..<count + n]),
                    remote := after_forwards f args n (remote s)\<rparr>)"
  using assms
proof (induction n arbitrary: count s)
  case 0
  then show ?case by simp
next
  case (Suc n)
  let ?W = "SessionRefreshingBotoClient_wrap_callable boto name"
  let ?w1 = "snd (f args (remote s))"
  let ?s1 = "s\<lparr>trace := trace s @
              [Log DEBUG (''SessionRefreshingBotoClient: '' @ name), Request name],
              remote := ?w1\<rparr>"
  let ?s2 = "s\<lparr>trace := trace s @ throttled_round name count, remote := ?w1\<rparr>"
  from Suc.prems(3) obtain e where e: "fst (f args (after_forwards f args 0 (remote s))) =
      Inl (Client e)" "rate_limited e" "\<not> credentials_expired e"
    by blast
  then have fwd: "f args (remote s) = (Inl (Client e), ?w1)"
    by (simp add: prod_eq_iff)
  have no: "False \<or> (\<forall>e'. Client e = Client e' \<longrightarrow> Code e' \<noteq> ''RequestExpired'')"
    using e(3) by (simp add: credentials_expired_def)
  have "SessionRefreshingBotoClient_wrapper boto name args False (self, s) =
      (Inl (Client e), self, ?s1)"
    using Suc.prems(2) fwd no by (rule sr_propagates [where f = f])
  then have inner: "?W args (self, s) = (Inl (Client e), self, ?s1)"
    by (simp add: SessionRefreshingBotoClient_wrap_callable_def)
  have lt: "count < MAX_RETRIES"
    using Suc.prems(4) by simp
  have "RequestThrottlingBotoClient_loop g ?W args count (self, s) =
           (let s' = logger INFO (''Throttling AWS API requests: '' @
                        format_round1 (get_retry_sleep_duration count) @ ''s...'') ?s1
            in if ''time'' \<in> set g
               then RequestThrottlingBotoClient_loop g ?W args (Suc count)
                      (self, emit (Sleep (get_retry_sleep_duration count)) s')
               else (Inl (NameError ''time''), self, s'))"
    using inner e(2) lt by (rule loop_backs_off [where attr = ?W and e = e])
  moreover have "emit (Sleep (get_retry_sleep_duration count))
        (logger INFO (''Throttling AWS API requests: '' @
                        format_round1 (get_retry_sleep_duration count) @ ''s...'') ?s1) = ?s2"
    by (simp add: logger_def emit_def throttled_round_def)
  ultimately have step: "RequestThrottlingBotoClient_loop g ?W args count (self, s) =
      RequestThrottlingBotoClient_loop g ?W args (Suc count) (self, ?s2)"
    using Suc.prems(1) by (simp add: Let_def)
  have later: "\<forall>i<n. \<exists>e. fst (f args (after_forwards f args i (remote ?s2))) = Inl (Client e)
            \<and> rate_limited e \<and> \<not> credentials_expired e"
  proof (intro allI impI)
    fix i assume "i < n"
    then have "Suc i < Suc n" by simp
    with Suc.prems(3) show "\<exists>e. fst (f args (after_forwards f args i (remote ?s2))) =
        Inl (Client e) \<and> rate_limited e \<and> \<not> credentials_expired e"
      by fastforce
  qed
  have room: "Suc count + n \<le> MAX_RETRIES"
    using Suc.prems(4) by simp
  have rest: "RequestThrottlingBotoClient_loop g ?W args (Suc count) (self, ?s2) =
      RequestThrottlingBotoClient_loop g ?W args (Suc count + n)
        (self, ?s2\<lparr>trace := trace ?s2 @
                       concat (map (throttled_round name) [Suc count..<Suc count + n]),
                    remote := after_forwards f args n (remote ?s2)\<rparr>)"
    using Suc.prems(1,2) later room by (rule Suc.IH)
  have rounds: "[count..<count + Suc n] = count # [Suc count..<Suc count + n]"
    by (simp add: upt_conv_Cons)
  have cat: "concat (map (throttled_round name) [count..<count + Suc n]) =
      throttled_round name count @
      concat (map (throttled_round name) [Suc count..<Suc count + n])"
    by (subst rounds) simp
  have "?s2\<lparr>trace := trace ?s2 @
                       concat (map (throttled_round name) [Suc count..<Suc count + n]),
                    remote := after_forwards f args n (remote ?s2)\<rparr> =
      s\<lparr>trace := trace s @ concat (map (throttled_round name) [count..<count + Suc n]),
                    remote := after_forwards f args (Suc n) (remote s)\<rparr>"
    unfolding cat by simp
  with step rest show ?case
    by simp
qed

lemma sleeps_of_rounds:
  "sleeps (concat (map (throttled_round name) [a..<b])) = map get_retry_sleep_duration [a..<b]"
  by (induction b) (simp_all add: throttled_round_def)

lemma requests_of_rounds:
  "length (requests (concat (map (throttled_round name) [a..<b]))) = b - a"
  by (induction b) (simp_all add: throttled_round_def Suc_diff_le)

lemma wait_of_rounds:
  "sum_list (map get_retry_sleep_duration [0..<Suc k]) = (\<Sum>i\<le>k. 1 / 2 * 2 ^ i)"
  by (induction k) (simp_all add: get_retry_sleep_duration_def RETRY_SLEEP_def)

text \<open>
  There, a call throttled on attempts \<open>0\<close> to \<open>k\<close> (\<open>k < 10\<close>) that succeeds on attempt
  \<open>k + 1\<close> returns that success, having slept \<open>0.5 \<times> 2\<^sup>i\<close> before retry \<open>i\<close>.
\<close>

lemma retries_then_success_where_time_is_bound:
  assumes "''time'' \<in> set g" and "client (wrapped h) name = Some (Method f)"
    and "\<forall>i<Suc k. \<exists>e. fst (f args (after_forwards f args i (remote s))) = Inl (Client e)
            \<and> rate_limited e \<and> \<not> credentials_expired e"
    and "k < MAX_RETRIES"
    and "f args (after_forwards f args (Suc k) (remote s)) = (Inr r, w)"
  shows "invoke g boto name args (h, s) =
           (Inr r, h,
            s\<lparr>trace := trace s @ [Log DEBUG (''RequestThrottlingBotoClient: '' @ name)] @
                 concat (map (throttled_round name) [0..<Suc k]) @
                 [Log DEBUG (''SessionRefreshingBotoClient: '' @ name), Request name],
              remote := w\<rparr>)"
proof -
  let ?W = "SessionRefreshingBotoClient_wrap_callable boto name"
  let ?s1 = "logger DEBUG (''RequestThrottlingBotoClient: '' @ name) s"
  let ?s2 = "?s1\<lparr>trace := trace ?s1 @ concat (map (throttled_round name) [0..<0 + Suc k]),
                 remote := after_forwards f args (Suc k) (remote ?s1)\<rparr>"
  let ?s3 = "?s2\<lparr>trace := trace ?s2 @
               [Log DEBUG (''SessionRefreshingBotoClient: '' @ name), Request name],
               remote := w\<rparr>"
  have all: "\<forall>i<Suc k. \<exists>e. fst (f args (after_forwards f args i (remote ?s1))) = Inl (Client e)
            \<and> rate_limited e \<and> \<not> credentials_expired e"
    using assms(3) by simp
  have room: "0 + Suc k \<le> MAX_RETRIES"
    using assms(4) by simp
  have rounds: "RequestThrottlingBotoClient_loop g ?W args 0 (wrapped h, ?s1) =
      RequestThrottlingBotoClient_loop g ?W args (0 + Suc k) (wrapped h, ?s2)"
    using assms(1,2) all room by (rule loop_retries [where f = f])
  have fwd: "f args (remote ?s2) = (Inr r, w)"
    using assms(5) by simp
  have "SessionRefreshingBotoClient_wrapper boto name args False (wrapped h, ?s2) =
      (Inr r, wrapped h, ?s3)"
    using assms(2) fwd by (rule sr_returns [where f = f])
  then have "?W args (wrapped h, ?s2) = (Inr r, wrapped h, ?s3)"
    by (simp add: SessionRefreshingBotoClient_wrap_callable_def)
  then have last: "RequestThrottlingBotoClient_loop g ?W args (0 + Suc k) (wrapped h, ?s2) =
      (Inr r, wrapped h, ?s3)"
    by (rule loop_passes [where attr = ?W]) simp
  have "invoke g boto name args (h, s) = (Inr r, RequestThrottlingBotoClient (wrapped h), ?s3)"
    by (subst invoke_method [OF assms(2)], subst rounds, subst last) simp
  then show ?thesis
    by (simp add: logger_def)
qed

text \<open>
  And a call throttled on all eleven attempts makes exactly those eleven requests, sleeps
  before each of the ten retries, and raises the eleventh failure.
\<close>

lemma exhaustion_where_time_is_bound:
  assumes "''time'' \<in> set g" and "client (wrapped h) name = Some (Method f)"
    and "\<forall>i<MAX_RETRIES. \<exists>e. fst (f args (after_forwards f args i (remote s))) = Inl (Client e)
            \<and> rate_limited e \<and> \<not> credentials_expired e"
    and "f args (after_forwards f args MAX_RETRIES (remote s)) = (Inl (Client e), w)"
    and "\<not> credentials_expired e"
  shows "invoke g boto name args (h, s) =
           (Inl (Client e), h,
            s\<lparr>trace := trace s @ [Log DEBUG (''RequestThrottlingBotoClient: '' @ name)] @
                 concat (map (throttled_round name) [0..<MAX_RETRIES]) @
                 [Log DEBUG (''SessionRefreshingBotoClient: '' @ name), Request name],
              remote := w\<rparr>)"
proof -
  let ?W = "SessionRefreshingBotoClient_wrap_callable boto name"
  let ?s1 = "logger DEBUG (''RequestThrottlingBotoClient: '' @ name) s"
  let ?s2 = "?s1\<lparr>trace := trace ?s1 @
                   concat (map (throttled_round name) [0..<0 + MAX_RETRIES]),
                 remote := after_forwards f args MAX_RETRIES (remote ?s1)\<rparr>"
  let ?s3 = "?s2\<lparr>trace := trace ?s2 @
               [Log DEBUG (''SessionRefreshingBotoClient: '' @ name), Request name],
               remote := w\<rparr>"
  have all: "\<forall>i<MAX_RETRIES. \<exists>e. fst (f args (after_forwards f args i (remote ?s1))) =
      Inl (Client e) \<and> rate_limited e \<and> \<not> credentials_expired e"
    using assms(3) by simp
  have room: "0 + MAX_RETRIES \<le> MAX_RETRIES"
    by simp
  have rounds: "RequestThrottlingBotoClient_loop g ?W args 0 (wrapped h, ?s1) =
      RequestThrottlingBotoClient_loop g ?W args (0 + MAX_RETRIES) (wrapped h, ?s2)"
    using assms(1,2) all room by (rule loop_retries [where f = f])
  have fwd: "f args (remote ?s2) = (Inl (Client e), w)"
    using assms(4) by simp
  have no: "False \<or> (\<forall>e'. Client e = Client e' \<longrightarrow> Code e' \<noteq> ''RequestExpired'')"
    using assms(5) by (simp add: credentials_expired_def)
  have "SessionRefreshingBotoClient_wrapper boto name args False (wrapped h, ?s2) =
      (Inl (Client e), wrapped h, ?s3)"
    using assms(2) fwd no by (rule sr_propagates [where f = f])
  then have "?W args (wrapped h, ?s2) = (Inl (Client e), wrapped h, ?s3)"
    by (simp add: SessionRefreshingBotoClient_wrap_callable_def)
  then have last: "RequestThrottlingBotoClient_loop g ?W args (0 + MAX_RETRIES) (wrapped h, ?s2) =
      (Inl (Client e), wrapped h, ?s3)"
    by (rule loop_passes [where attr = ?W]) simp
  have "invoke g boto name args (h, s) =
      (Inl (Client e), RequestThrottlingBotoClient (wrapped h), ?s3)"
    by (subst invoke_method [OF assms(2)], subst rounds, subst last) simp
  then show ?thesis
    by (simp add: logger_def)
qed

lemma exhaustion_counts:
  "length (requests ([Log DEBUG (''RequestThrottlingBotoClient: '' @ name)] @
             concat (map (throttled_round name) [0..<MAX_RETRIES]) @
             [Log DEBUG (''SessionRefreshingBotoClient: '' @ name), Request name])) = 11
   \<and> sleeps ([Log DEBUG (''RequestThrottlingBotoClient: '' @ name)] @
             concat (map (throttled_round name) [0..<MAX_RETRIES]) @
             [Log DEBUG (''SessionRefreshingBotoClient: '' @ name), Request name]) =
       map get_retry_sleep_duration [0..<MAX_RETRIES]
   \<and> sum_list (map get_retry_sleep_duration [0..<MAX_RETRIES]) = 1023 / 2"
proof -
  have "sum_list (map get_retry_sleep_duration [0..<Suc 9]) = 1023 / 2"
    unfolding wait_of_rounds by (simp add: eval_nat_numeral)
  then have "sum_list (map get_retry_sleep_duration [0..<MAX_RETRIES]) = 1023 / 2"
    by (simp add: MAX_RETRIES_def)
  then show ?thesis
    by (simp add: requests_of_rounds sleeps_of_rounds MAX_RETRIES_def del: upt_Suc)
qed

text \<open>
  The scenario of the specification there: throttled on attempts 0 to 2, success on
  attempt 3, waits of 0.5, 1.0 and 2.0, 3.5 in all.
\<close>

lemma scenario_where_time_is_bound:
  "fst (invoke (''time'' # aws_globals) scripted_boto3 ''describe_instances'' ()
     (ec2, \<lparr>remote = [Inl (Client throttled), Inl (Client throttled), Inl (Client throttled),
                       Inr ''reservations''],
            trace = []\<rparr>)) = Inr ''reservations''
   \<and> sleeps (trace (snd (snd (invoke (''time'' # aws_globals) scripted_boto3
        ''describe_instances'' ()
        (ec2, \<lparr>remote = [Inl (Client throttled), Inl (Client throttled),
                          Inl (Client throttled), Inr ''reservations''],
               trace = []\<rparr>))))) = [1 / 2, 1, 2]
   \<and> sum_list [1 / 2, 1, 2 :: rat] = 7 / 2"
proof -
  let ?script = "[Inl (Client throttled), Inl (Client throttled), Inl (Client throttled),
                  Inr ''reservations''] :: (exn + string) list"
  let ?s = "\<lparr>remote = ?script, trace = []\<rparr>"
  have a1: "''time'' \<in> set (''time'' # aws_globals)"
    by simp
  have a2: "client (wrapped ec2) ''describe_instances'' = Some (Method describe_instances)"
    by (simp add: ec2_def scripted_client_def)
  have a3: "\<forall>i<Suc 2. \<exists>e. fst (describe_instances ()
               (after_forwards describe_instances () i (remote ?s))) = Inl (Client e)
            \<and> rate_limited e \<and> \<not> credentials_expired e"
    by (simp add: less_Suc_eq eval_nat_numeral describe_instances_def rate_limited_def
        credentials_expired_def throttled_def)
  have a4: "2 < MAX_RETRIES"
    by (simp add: MAX_RETRIES_def)
  have a5: "describe_instances () (after_forwards describe_instances () (Suc 2) (remote ?s)) =
      (Inr ''reservations'', [])"
    by (simp add: eval_nat_numeral describe_instances_def)
  have run: "invoke (''time'' # aws_globals) scripted_boto3 ''describe_instances'' () (ec2, ?s) =
      (Inr ''reservations'', ec2,
       ?s\<lparr>trace := trace ?s @
              [Log DEBUG (''RequestThrottlingBotoClient: '' @ ''describe_instances'')] @
              concat (map (throttled_round ''describe_instances'') [0..<Suc 2]) @
              [Log DEBUG (''SessionRefreshingBotoClient: '' @ ''describe_instances''),
               Request ''describe_instances''],
           remote := []\<rparr>)"
    using a1 a2 a3 a4 a5
    by (rule retries_then_success_where_time_is_bound [where f = describe_instances])
  have waits: "map get_retry_sleep_duration [0..<3] = [1 / 2, 1, 2]"
    by code_simp
  show ?thesis
    by (subst run, subst run) (simp add: sleeps_of_rounds waits del: upt_Suc)
qed

text \<open>
  There too, a throttle retry enters the refresh layer anew, with its flag \<open>retried\<close>
  reset: one outer call can refresh the session twice.
\<close>

lemma two_refreshes_where_time_is_bound:
  "fst (invoke (''time'' # aws_globals) scripted_boto3 ''describe_instances'' ()
     (ec2, \<lparr>remote = [Inl (Client expired), Inl (Client throttled), Inl (Client expired),
                       Inr ''reservations''],
            trace = []\<rparr>)) = Inr ''reservations''
   \<and> refreshes (trace (snd (snd (invoke (''time'' # aws_globals) scripted_boto3
        ''describe_instances'' ()
        (ec2, \<lparr>remote = [Inl (Client expired), Inl (Client throttled),
                          Inl (Client expired), Inr ''reservations''],
               trace = []\<rparr>))))) = 2"
proof -
  let ?g = "''time'' # aws_globals"
  let ?W = "SessionRefreshingBotoClient_wrap_callable scripted_boto3 ''describe_instances''"
  let ?s = "\<lparr>remote = [Inl (Client expired), Inl (Client throttled), Inl (Client expired),
                       Inr ''reservations''],
            trace = []\<rparr> :: (exn + string) list sys"
  let ?s1 = "logger DEBUG (''RequestThrottlingBotoClient: '' @ ''describe_instances'') ?s"
  let ?pass = "[Log DEBUG (''SessionRefreshingBotoClient: '' @ ''describe_instances''),
               Request ''describe_instances'',
               Log INFO ''Refreshing boto client session...'', NewClient,
               Log DEBUG (''SessionRefreshingBotoClient: '' @ ''describe_instances''),
               Request ''describe_instances'']"
  let ?s2 = "?s1\<lparr>trace := trace ?s1 @ ?pass,
                 remote := [Inl (Client expired), Inr ''reservations'']\<rparr>"
  let ?s3 = "emit (Sleep (get_retry_sleep_duration 0))
               (logger INFO (''Throttling AWS API requests: '' @
                  format_round1 (get_retry_sleep_duration 0) @ ''s...'') ?s2)"
  let ?s4 = "?s3\<lparr>trace := trace ?s3 @ ?pass, remote := []\<rparr>"
  have m: "client (wrapped ec2) ''describe_instances'' = Some (Method describe_instances)"
    by (simp add: ec2_def scripted_client_def)
  have x: "Code expired = ''RequestExpired''"
    by (simp add: expired_def)
  have b: "\<And>w. scripted_boto3 (profile_name (wrapped ec2)) (service_name (wrapped ec2))
        (region_name (wrapped ec2)) w = (Inr scripted_client, w)"
    by (simp add: scripted_boto3_def)
  have m': "scripted_client ''describe_instances'' = Some (Method describe_instances)"
    by (simp add: scripted_client_def)
  have same: "(wrapped ec2)\<lparr>client := scripted_client\<rparr> = wrapped ec2"
    by (simp add: ec2_def)
  have first: "?W () (wrapped ec2, ?s1) = (Inl (Client throttled), wrapped ec2, ?s2)"
    using sr_refresh_then [where f = describe_instances and f' = describe_instances
        and e = expired and self = "wrapped ec2" and name = "''describe_instances''"
        and args = "()" and s = ?s1 and boto = scripted_boto3 and c = scripted_client
        and ?w1.0 = "[Inl (Client throttled), Inl (Client expired), Inr ''reservations'']"
        and ?w2.0 = "[Inl (Client throttled), Inl (Client expired), Inr ''reservations'']"
        and res = "Inl (Client throttled)"
        and ?w3.0 = "[Inl (Client expired), Inr ''reservations'']", OF m _ x b m']
    by (simp add: describe_instances_def same SessionRefreshingBotoClient_wrap_callable_def)
  have second: "?W () (wrapped ec2, ?s3) = (Inr ''reservations'', wrapped ec2, ?s4)"
    using sr_refresh_then [where f = describe_instances and f' = describe_instances
        and e = expired and self = "wrapped ec2" and name = "''describe_instances''"
        and args = "()" and s = ?s3 and boto = scripted_boto3 and c = scripted_client
        and ?w1.0 = "[Inr ''reservations'']" and ?w2.0 = "[Inr ''reservations'']"
        and res = "Inr ''reservations''" and ?w3.0 = "[]", OF m _ x b m']
    by (simp add: describe_instances_def same SessionRefreshingBotoClient_wrap_callable_def)
  have lim: "rate_limited throttled"
    by (simp add: rate_limited_def throttled_def)
  have "0 < MAX_RETRIES"
    by (simp add: MAX_RETRIES_def)
  with first lim have "RequestThrottlingBotoClient_loop ?g ?W () 0 (wrapped ec2, ?s1) =
           (let s' = logger INFO (''Throttling AWS API requests: '' @
                        format_round1 (get_retry_sleep_duration 0) @ ''s...'') ?s2
            in if ''time'' \<in> set ?g
               then RequestThrottlingBotoClient_loop ?g ?W () (Suc 0)
                      (wrapped ec2, emit (Sleep (get_retry_sleep_duration 0)) s')
               else (Inl (NameError ''time''), wrapped ec2, s'))"
    by (rule loop_backs_off [where attr = ?W and e = throttled])
  then have round: "RequestThrottlingBotoClient_loop ?g ?W () 0 (wrapped ec2, ?s1) =
      RequestThrottlingBotoClient_loop ?g ?W () (Suc 0) (wrapped ec2, ?s3)"
    by (simp add: Let_def)
  have last: "RequestThrottlingBotoClient_loop ?g ?W () (Suc 0) (wrapped ec2, ?s3) =
      (Inr ''reservations'', wrapped ec2, ?s4)"
    using second by (rule loop_passes [where attr = ?W]) simp
  have run: "invoke ?g scripted_boto3 ''describe_instances'' () (ec2, ?s) =
      (Inr ''reservations'', RequestThrottlingBotoClient (wrapped ec2), ?s4)"
    by (subst invoke_method [OF m], subst round, subst last) simp
  show ?thesis
    by (subst run, subst run) simp
qed

end
